theory Spec2Isabelle
  imports Main "HOL-Library.Sublist"
begin

section \<open>The service container of framework/container.go\<close>

subsection \<open>Values, errors and the provider contract\<close>

text \<open>
  Go's \<^verbatim>\<open>interface{}\<close> values are the type variable \<open>'v\<close>; equality of two
  \<open>'v\<close> is Go's identity of two instances. A slice \<^verbatim>\<open>[]interface{}\<close> is a
  \<open>'v list option\<close>: \<open>None\<close> is the nil slice, \<open>Some []\<close> the empty slice that is
  not nil (the code compares \<^verbatim>\<open>params == nil\<close>).

  An \<^verbatim>\<open>error\<close> is either the value built by \<^verbatim>\<open>errors.New(msg)\<close> or a value
  of some other error type, created by a provider, with a tag for its identity and its
  message. \<open>Error\<close> is the method \<^verbatim>\<open>Error() string\<close>.
\<close>

datatype error = ErrorsNew string | ProviderError nat string

fun Error :: "error \<Rightarrow> string" where
  "Error (ErrorsNew msg) = msg"
| "Error (ProviderError tag msg) = msg"

text \<open>
  What a provider hook can observe of the container it is handed: whether a key is bound
  (\<^verbatim>\<open>IsBind\<close>) and the cached singletons (what \<^verbatim>\<open>Make\<close> answers for a key that
  is already instantiated). Hooks that call \<^verbatim>\<open>Bind\<close>, or resolve a key that is
  not yet instantiated, from inside the container's own call are outside this model.
\<close>

record 'v Container =
  is_bound :: "string \<Rightarrow> bool"
  cached :: "string \<rightharpoonup> 'v"

text \<open>
  Modelled from the spec: the type \<^verbatim>\<open>NewInstance\<close> of a factory (its declaration is
  not among the sources). Section 4.1: the factory takes the argument list and answers an
  instance or an error; it may act on the state \<open>'w\<close> of everything outside the container.
\<close>

type_synonym ('v, 'w) NewInstance = "'v list option \<Rightarrow> 'w \<Rightarrow> (error + 'v) \<times> 'w"

text \<open>
  Modelled from the spec: the interface \<^verbatim>\<open>ServiceProvider\<close> (its declaration is not
  among the sources). Section 4.1 gives its five methods. \<open>Name\<close> and \<open>IsDefer\<close> are
  stable attributes. \<open>Boot\<close>, \<open>Params\<close> and \<open>Register\<close> are hooks: they read the
  container and act on the state \<open>'w\<close> of everything outside the container (the
  provider's own fields, connections, counters). \<open>Register\<close> answers the factory.
\<close>

record ('v, 'w) ServiceProvider =
  Name :: string
  IsDefer :: bool
  Boot :: "'v Container \<Rightarrow> 'w \<Rightarrow> error option \<times> 'w"
  Params :: "'v Container \<Rightarrow> 'w \<Rightarrow> 'v list option \<times> 'w"
  Register :: "'v Container \<Rightarrow> 'w \<Rightarrow> ('v, 'w) NewInstance \<times> 'w"

subsection \<open>The container and the state of a run\<close>

text \<open>
  \<^verbatim>\<open>StartContainer\<close> holds the two maps. The lock is left out: the model is of one
  goroutine.
\<close>

record ('v, 'w) StartContainer =
  providers :: "string \<rightharpoonup> ('v, 'w) ServiceProvider"
  instances :: "string \<rightharpoonup> 'v"

definition NewStartContainer :: "('v, 'w) StartContainer" where
  "NewStartContainer = \<lparr>providers = Map.empty, instances = Map.empty\<rparr>"

text \<open>
  Every call the container makes to a hook is written to a trace, in order. The trace is
  a ghost: no definition below reads it.
\<close>

datatype 'v event =
    CallBoot string
  | CallParams string
  | CallRegister string
  | CallFactory string "'v list option"

record ('v, 'w) sys =
  container :: "('v, 'w) StartContainer"
  world :: 'w
  trace :: "'v event list"

definition start :: "'w \<Rightarrow> ('v, 'w) sys" where
  "start w = \<lparr>container = NewStartContainer, world = w, trace = []\<rparr>"

definition view :: "('v, 'w) sys \<Rightarrow> 'v Container" where
  "view s = \<lparr>is_bound = (\<lambda>key. providers (container s) key \<noteq> None),
             cached = instances (container s)\<rparr>"

subsection \<open>The hook calls\<close>

definition callBoot :: "('v, 'w) ServiceProvider \<Rightarrow> ('v, 'w) sys \<Rightarrow> error option \<times> ('v, 'w) sys" where
  "callBoot sp s =
     (case Boot sp (view s) (world s) of
        (err, w) \<Rightarrow> (err, s\<lparr>world := w, trace := trace s @ [CallBoot (Name sp)]\<rparr>))"

definition callParams :: "('v, 'w) ServiceProvider \<Rightarrow> ('v, 'w) sys \<Rightarrow> 'v list option \<times> ('v, 'w) sys" where
  "callParams sp s =
     (case Params sp (view s) (world s) of
        (ps, w) \<Rightarrow> (ps, s\<lparr>world := w, trace := trace s @ [CallParams (Name sp)]\<rparr>))"

definition callRegister :: "('v, 'w) ServiceProvider \<Rightarrow> ('v, 'w) sys \<Rightarrow> ('v, 'w) NewInstance \<times> ('v, 'w) sys" where
  "callRegister sp s =
     (case Register sp (view s) (world s) of
        (method, w) \<Rightarrow> (method, s\<lparr>world := w, trace := trace s @ [CallRegister (Name sp)]\<rparr>))"

definition callMethod :: "('v, 'w) ServiceProvider \<Rightarrow> ('v, 'w) NewInstance \<Rightarrow> 'v list option \<Rightarrow>
    ('v, 'w) sys \<Rightarrow> (error + 'v) \<times> ('v, 'w) sys" where
  "callMethod sp method params s =
     (case method params (world s) of
        (r, w) \<Rightarrow> (r, s\<lparr>world := w, trace := trace s @ [CallFactory (Name sp) params]\<rparr>))"

subsection \<open>The operations\<close>

definition setProvider :: "string \<Rightarrow> ('v, 'w) ServiceProvider \<Rightarrow> ('v, 'w) sys \<Rightarrow> ('v, 'w) sys" where
  "setProvider key provider s =
     s\<lparr>container := (container s)\<lparr>providers := (providers (container s))(key \<mapsto> provider)\<rparr>\<rparr>"

definition setInstance :: "string \<Rightarrow> 'v \<Rightarrow> ('v, 'w) sys \<Rightarrow> ('v, 'w) sys" where
  "setInstance key inst s =
     s\<lparr>container := (container s)\<lparr>instances := (instances (container s))(key \<mapsto> inst)\<rparr>\<rparr>"

text \<open>\<^verbatim>\<open>Bind\<close>. The line printed on a factory error is not modelled.\<close>

definition Bind :: "('v, 'w) ServiceProvider \<Rightarrow> ('v, 'w) sys \<Rightarrow> error option \<times> ('v, 'w) sys" where
  "Bind provider s =
     (let key = Name provider;
          s0 = setProvider key provider s
      in if IsDefer provider = False then
           (case callBoot provider s0 of
              (Some err, s1) \<Rightarrow> (Some err, s1)
            | (None, s1) \<Rightarrow>
                (case callParams provider s1 of
                   (params, s2) \<Rightarrow>
                     (case callRegister provider s2 of
                        (method, s3) \<Rightarrow>
                          (case callMethod provider method params s3 of
                             (Inl err, s4) \<Rightarrow> (Some (ErrorsNew (Error err)), s4)
                           | (Inr inst, s4) \<Rightarrow> (None, setInstance key inst s4)))))
         else (None, s0))"

definition findServiceProvider :: "('v, 'w) sys \<Rightarrow> string \<Rightarrow> ('v, 'w) ServiceProvider option" where
  "findServiceProvider s key = providers (container s) key"

definition IsBind :: "string \<Rightarrow> ('v, 'w) sys \<Rightarrow> bool" where
  "IsBind key s = (findServiceProvider s key \<noteq> None)"

definition newInstance :: "('v, 'w) ServiceProvider \<Rightarrow> 'v list option \<Rightarrow> ('v, 'w) sys \<Rightarrow>
    (error + 'v) \<times> ('v, 'w) sys" where
  "newInstance sp params s =
     (case callBoot sp s of
        (Some err, s1) \<Rightarrow> (Inl err, s1)
      | (None, s1) \<Rightarrow>
          (case (if params = None then callParams sp s1 else (params, s1)) of
             (params', s2) \<Rightarrow>
               (case callRegister sp s2 of
                  (method, s3) \<Rightarrow>
                    (case callMethod sp method params' s3 of
                       (Inl err, s4) \<Rightarrow> (Inl (ErrorsNew (Error err)), s4)
                     | (Inr ins, s4) \<Rightarrow> (Inr ins, s4)))))"

definition make :: "string \<Rightarrow> 'v list option \<Rightarrow> bool \<Rightarrow> ('v, 'w) sys \<Rightarrow> (error + 'v) \<times> ('v, 'w) sys" where
  "make key params forceNew s =
     (case findServiceProvider s key of
        None \<Rightarrow> (Inl (ErrorsNew (''contract '' @ key @ '' have not register'')), s)
      | Some sp \<Rightarrow>
          if forceNew then newInstance sp params s
          else
            (case instances (container s) key of
               Some ins \<Rightarrow> (Inr ins, s)
             | None \<Rightarrow>
                 (case newInstance sp None s of
                    (Inl err, s1) \<Rightarrow> (Inl err, s1)
                  | (Inr inst, s1) \<Rightarrow> (Inr inst, setInstance key inst s1))))"

definition Make :: "string \<Rightarrow> ('v, 'w) sys \<Rightarrow> (error + 'v) \<times> ('v, 'w) sys" where
  "Make key s = make key None False s"

text \<open>A call of \<^verbatim>\<open>MustMake\<close> either returns the service or panics with a message.\<close>

datatype 'a outcome = Return 'a | Panic string

definition MustMake :: "string \<Rightarrow> ('v, 'w) sys \<Rightarrow> 'v outcome \<times> ('v, 'w) sys" where
  "MustMake key s =
     (case make key None False s of
        (Inl err, s1) \<Rightarrow> (Panic (''container not contain key '' @ key), s1)
      | (Inr serv, s1) \<Rightarrow> (Return serv, s1))"

definition MakeNew :: "string \<Rightarrow> 'v list option \<Rightarrow> ('v, 'w) sys \<Rightarrow> (error + 'v) \<times> ('v, 'w) sys" where
  "MakeNew key params s = make key params True s"

text \<open>A sequence of calls from outside, run against the container one after the other.\<close>

datatype ('v, 'w) op =
    OpBind "('v, 'w) ServiceProvider"
  | OpMake string
  | OpMustMake string
  | OpMakeNew string "'v list option"
  | OpIsBind string

fun apply_op :: "('v, 'w) op \<Rightarrow> ('v, 'w) sys \<Rightarrow> ('v, 'w) sys" where
  "apply_op (OpBind p) s = snd (Bind p s)"
| "apply_op (OpMake key) s = snd (Make key s)"
| "apply_op (OpMustMake key) s = snd (MustMake key s)"
| "apply_op (OpMakeNew key ps) s = snd (MakeNew key ps s)"
| "apply_op (OpIsBind key) s = s"

fun run :: "('v, 'w) op list \<Rightarrow> ('v, 'w) sys \<Rightarrow> ('v, 'w) sys" where
  "run [] s = s"
| "run (x # xs) s = run xs (apply_op x s)"

fun binds :: "string \<Rightarrow> ('v, 'w) op \<Rightarrow> bool" where
  "binds key (OpBind p) = (Name p = key)"
| "binds key _ = False"

subsection \<open>Notions used to state the properties\<close>

fun is_boot :: "'v event \<Rightarrow> bool" where
  "is_boot (CallBoot n) = True"
| "is_boot _ = False"

fun is_factory :: "'v event \<Rightarrow> bool" where
  "is_factory (CallFactory n ps) = True"
| "is_factory _ = False"

definition factory_calls :: "'v event list \<Rightarrow> nat" where
  "factory_calls evs = length (filter is_factory evs)"

definition boot_calls :: "'v event list \<Rightarrow> nat" where
  "boot_calls evs = length (filter is_boot evs)"

text \<open>
  The part of \<^verbatim>\<open>newInstance\<close> after \<^verbatim>\<open>Boot\<close>: the choice of the parameters,
  \<^verbatim>\<open>Register\<close> and the call of the factory, before the error is wrapped.
\<close>

definition invoke :: "('v, 'w) ServiceProvider \<Rightarrow> 'v list option \<Rightarrow> ('v, 'w) sys \<Rightarrow>
    (error + 'v) \<times> ('v, 'w) sys" where
  "invoke sp params s1 =
     (case (if params = None then callParams sp s1 else (params, s1)) of
        (params', s2) \<Rightarrow>
          (case callRegister sp s2 of
             (method, s3) \<Rightarrow> callMethod sp method params' s3))"

text \<open>The end of \<^verbatim>\<open>make\<close>: the instance is stored when the pipeline gave one.\<close>

definition cacheOnSuccess :: "string \<Rightarrow> (error + 'v) \<times> ('v, 'w) sys \<Rightarrow> (error + 'v) \<times> ('v, 'w) sys" where
  "cacheOnSuccess key r =
     (case r of
        (Inl err, s1) \<Rightarrow> (Inl err, s1)
      | (Inr inst, s1) \<Rightarrow> (Inr inst, setInstance key inst s1))"

definition consistent :: "('v, 'w) sys \<Rightarrow> bool" where
  "consistent s = (dom (instances (container s)) \<subseteq> dom (providers (container s)))"

subsection \<open>Example providers\<close>

text \<open>
  Instances are numbers and the outside state counts the calls of the factory. The factory
  refuses a first argument \<open>0\<close> and otherwise builds a fresh instance \<open>100 + w\<close>.
  \<open>boot_err\<close> is what \<open>Boot\<close> answers and \<open>dflt\<close> what \<open>Params\<close> answers.
\<close>

definition demo :: "string \<Rightarrow> bool \<Rightarrow> error option \<Rightarrow> nat list option \<Rightarrow> (nat, nat) ServiceProvider" where
  "demo name defer boot_err dflt =
     \<lparr>Name = name, IsDefer = defer,
      Boot = (\<lambda>c w. (boot_err, w)),
      Params = (\<lambda>c w. (dflt, w)),
      Register = (\<lambda>c w. ((\<lambda>ps w'. (case ps of
                                        Some (x # xs) \<Rightarrow>
                                          if x = 0 then Inl (ProviderError 1 ''bad argument'')
                                          else Inr (100 + w')
                                      | _ \<Rightarrow> Inr (100 + w'), Suc w')), w))\<rparr>"

text \<open>A deferred provider bound to a new container, its default argument accepted.\<close>

definition ok :: "(nat, nat) sys" where
  "ok = snd (Bind (demo ''svc'' True None (Some [7])) (start 0))"



text \<open>A provider, not deferred, whose \<^verbatim>\<open>Boot\<close> fails.\<close>

definition unreachable :: "(nat, nat) ServiceProvider" where
  "unreachable = demo ''svc'' False (Some (ProviderError 2 ''no route'')) (Some [7])"






section \<open>Basic facts\<close>

lemmas exec_defs = Bind_def Make_def MakeNew_def MustMake_def make_def newInstance_def
  findServiceProvider_def IsBind_def callBoot_def callParams_def callRegister_def callMethod_def
  setProvider_def setInstance_def view_def start_def NewStartContainer_def demo_def
  factory_calls_def boot_calls_def Let_def

lemma callBoot_eq: "callBoot sp s = (x, t) \<Longrightarrow>
    container t = container s \<and> trace t = trace s @ [CallBoot (Name sp)]"
  by (auto simp: callBoot_def split: prod.splits)
lemma callParams_eq: "callParams sp s = (x, t) \<Longrightarrow>
    container t = container s \<and> trace t = trace s @ [CallParams (Name sp)]"
  by (auto simp: callParams_def split: prod.splits)
lemma callRegister_eq: "callRegister sp s = (x, t) \<Longrightarrow>
    container t = container s \<and> trace t = trace s @ [CallRegister (Name sp)]"
  by (auto simp: callRegister_def split: prod.splits)
lemma callMethod_eq: "callMethod sp m ps s = (x, t) \<Longrightarrow>
    container t = container s \<and> trace t = trace s @ [CallFactory (Name sp) ps]"
  by (auto simp: callMethod_def split: prod.splits)

lemma newInstance_invoke:
  "newInstance sp ps s =
     (case callBoot sp s of
        (Some err, s1) \<Rightarrow> (Inl err, s1)
      | (None, s1) \<Rightarrow>
          (case invoke sp ps s1 of
             (Inl err, s4) \<Rightarrow> (Inl (ErrorsNew (Error err)), s4)
           | (Inr ins, s4) \<Rightarrow> (Inr ins, s4)))"
proof (cases "callBoot sp s")
  case (Pair e s1)
  show ?thesis
  proof (cases e)
    case (Some err)
    with Pair show ?thesis by (simp add: newInstance_def)
  next
    case None
    obtain ps' s2 where a: "(if ps = None then callParams sp s1 else (ps, s1)) = (ps', s2)"
      by (cases "if ps = None then callParams sp s1 else (ps, s1)")
    obtain m s3 where b: "callRegister sp s2 = (m, s3)"
      by (cases "callRegister sp s2")
    from Pair None a b show ?thesis
      by (simp add: newInstance_def invoke_def)
  qed
qed

lemma invoke_eq: "invoke sp ps s = (r, t) \<Longrightarrow>
   container t = container s \<and>
   (\<exists>ps'. trace t = trace s @ (if ps = None then [CallParams (Name sp)] else []) @ [CallRegister (Name sp), CallFactory (Name sp) ps'] \<and> (ps \<noteq> None \<longrightarrow> ps' = ps))"
  unfolding invoke_def
  by (auto split: prod.splits if_splits dest!: callParams_eq callRegister_eq callMethod_eq)

lemma newInstance_eq: "newInstance sp ps s = (r, t) \<Longrightarrow>
   container t = container s \<and>
   (\<exists>rest. trace t = trace s @ CallBoot (Name sp) # rest \<and> boot_calls rest = 0 \<and> factory_calls rest \<le> 1
     \<and> (fst (callBoot sp s) \<noteq> None \<longrightarrow> rest = []))"
  unfolding newInstance_invoke
  by (auto split: prod.splits option.splits sum.splits dest!: callBoot_eq invoke_eq simp: boot_calls_def factory_calls_def)

lemma Bind_defer: "IsDefer P \<Longrightarrow> Bind P s = (None, setProvider (Name P) P s)"
  by (simp add: Bind_def)

lemma Bind_eager:
  "\<not> IsDefer P \<Longrightarrow> Bind P s =
     (case newInstance P None (setProvider (Name P) P s) of
        (Inl err, t) \<Rightarrow> (Some err, t)
      | (Inr inst, t) \<Rightarrow> (None, setInstance (Name P) inst t))"
  by (simp add: Bind_def newInstance_def Let_def split: prod.splits option.splits sum.splits)

lemma Make_cached:
  "providers (container s) key = Some sp \<Longrightarrow> instances (container s) key = Some i \<Longrightarrow>
   Make key s = (Inr i, s)"
  by (simp add: Make_def make_def findServiceProvider_def)

lemma Make_fresh:
  "providers (container s) key = Some sp \<Longrightarrow> instances (container s) key = None \<Longrightarrow>
   Make key s = cacheOnSuccess key (newInstance sp None s)"
  by (simp add: Make_def make_def findServiceProvider_def cacheOnSuccess_def)

lemma MakeNew_bound:
  "providers (container s) key = Some sp \<Longrightarrow> MakeNew key ps s = newInstance sp ps s"
  by (simp add: MakeNew_def make_def findServiceProvider_def)

lemma MakeNew_unbound:
  "providers (container s) key = None \<Longrightarrow>
   MakeNew key ps s = (Inl (ErrorsNew (''contract '' @ key @ '' have not register'')), s)"
  by (simp add: MakeNew_def make_def findServiceProvider_def)

lemma Make_unbound:
  "providers (container s) key = None \<Longrightarrow>
   Make key s = (Inl (ErrorsNew (''contract '' @ key @ '' have not register'')), s)"
  by (simp add: Make_def make_def findServiceProvider_def)

lemma MustMake_Make:
  "MustMake key s =
     (case Make key s of
        (Inl err, s1) \<Rightarrow> (Panic (''container not contain key '' @ key), s1)
      | (Inr serv, s1) \<Rightarrow> (Return serv, s1))"
  by (simp add: MustMake_def Make_def)

lemma container_setInstance [simp]:
  "providers (container (setInstance key i s)) = providers (container s)"
  "instances (container (setInstance key i s)) = (instances (container s))(key \<mapsto> i)"
  "trace (setInstance key i s) = trace s" "world (setInstance key i s) = world s"
  by (simp_all add: setInstance_def)

lemma container_setProvider [simp]:
  "providers (container (setProvider key p s)) = (providers (container s))(key \<mapsto> p)"
  "instances (container (setProvider key p s)) = instances (container s)"
  "trace (setProvider key p s) = trace s" "world (setProvider key p s) = world s"
  by (simp_all add: setProvider_def)


lemma container_MakeNew: "container (snd (MakeNew key ps s)) = container s"
proof (cases "providers (container s) key")
  case None
  then show ?thesis by (simp add: MakeNew_unbound)
next
  case (Some sp)
  then show ?thesis
    using newInstance_eq [of sp ps s] by (simp add: MakeNew_bound) (metis prod.collapse)
qed


lemma Bind_container:
  "providers (container (snd (Bind p s))) = (providers (container s))(Name p \<mapsto> p) \<and>
   (instances (container (snd (Bind p s))) = instances (container s) \<or>
    (\<exists>i. fst (Bind p s) = None \<and> \<not> IsDefer p \<and>
       instances (container (snd (Bind p s))) = (instances (container s))(Name p \<mapsto> i)))"
proof (cases "IsDefer p")
  case True
  then show ?thesis by (simp add: Bind_defer)
next
  case False
  obtain r t where rt: "newInstance p None (setProvider (Name p) p s) = (r, t)"
    by (cases "newInstance p None (setProvider (Name p) p s)")
  from newInstance_eq [OF rt] have c: "container t = container (setProvider (Name p) p s)" by simp
  show ?thesis
  proof (cases r)
    case (Inl e)
    with False rt c show ?thesis by (simp add: Bind_eager)
  next
    case (Inr i)
    with False rt c have "fst (Bind p s) = None \<and> \<not> IsDefer p \<and>
       instances (container (snd (Bind p s))) = (instances (container s))(Name p \<mapsto> i)"
      and "providers (container (snd (Bind p s))) = (providers (container s))(Name p \<mapsto> p)"
      by (simp_all add: Bind_eager)
    then show ?thesis by blast
  qed
qed

lemma Bind_dom:
  "dom (providers (container (snd (Bind p s)))) = insert (Name p) (dom (providers (container s)))"
  "dom (instances (container (snd (Bind p s)))) \<subseteq> insert (Name p) (dom (instances (container s)))"
proof -
  show "dom (providers (container (snd (Bind p s)))) = insert (Name p) (dom (providers (container s)))"
    using Bind_container [of p s] by simp
  show "dom (instances (container (snd (Bind p s)))) \<subseteq> insert (Name p) (dom (instances (container s)))"
    using Bind_container [of p s] by (elim conjE disjE exE) (simp_all add: subset_insertI)
qed

lemma Make_container:
  "providers (container (snd (Make key s))) = providers (container s) \<and>
   (instances (container (snd (Make key s))) = instances (container s) \<or>
    (\<exists>i. fst (Make key s) = Inr i \<and> providers (container s) key \<noteq> None \<and>
       instances (container (snd (Make key s))) = (instances (container s))(key \<mapsto> i)))"
proof (cases "providers (container s) key")
  case None
  then show ?thesis by (simp add: Make_unbound)
next
  case (Some sp)
  show ?thesis
  proof (cases "instances (container s) key")
    case (Some j)
    with \<open>providers (container s) key = Some sp\<close> show ?thesis
      by (simp add: Make_cached)
  next
    case None
    obtain r t where rt: "newInstance sp None s = (r, t)"
      by (cases "newInstance sp None s")
    from newInstance_eq [OF rt] have "container t = container s" by simp
    with None rt \<open>providers (container s) key = Some sp\<close> show ?thesis
      by (cases r) (simp_all add: Make_fresh cacheOnSuccess_def)
  qed
qed

lemma Make_dom:
  "dom (providers (container (snd (Make key s)))) = dom (providers (container s))"
  "dom (instances (container (snd (Make key s)))) \<subseteq> dom (instances (container s)) \<union> dom (providers (container s))"
proof -
  show "dom (providers (container (snd (Make key s)))) = dom (providers (container s))"
    using Make_container [of key s] by simp
  show "dom (instances (container (snd (Make key s)))) \<subseteq> dom (instances (container s)) \<union> dom (providers (container s))"
    using Make_container [of key s] by (elim conjE disjE exE) auto
qed

lemma snd_MustMake: "snd (MustMake key s) = snd (Make key s)"
  by (simp add: MustMake_Make split: prod.splits sum.splits)

lemma consistent_Bind: "consistent s \<Longrightarrow> consistent (snd (Bind p s))"
proof -
  assume "consistent s"
  then have inv: "dom (instances (container s)) \<subseteq> dom (providers (container s))"
    by (simp add: consistent_def)
  have "dom (instances (container (snd (Bind p s)))) \<subseteq> insert (Name p) (dom (instances (container s)))"
    by (rule Bind_dom(2))
  also have "\<dots> \<subseteq> insert (Name p) (dom (providers (container s)))"
    using inv by (rule insert_mono)
  also have "\<dots> = dom (providers (container (snd (Bind p s))))"
    by (simp add: Bind_dom(1))
  finally show ?thesis by (simp add: consistent_def)
qed

lemma consistent_Make: "consistent s \<Longrightarrow> consistent (snd (Make key s))"
proof -
  assume "consistent s"
  then have inv: "dom (instances (container s)) \<subseteq> dom (providers (container s))"
    by (simp add: consistent_def)
  have "dom (instances (container (snd (Make key s)))) \<subseteq>
      dom (instances (container s)) \<union> dom (providers (container s))"
    by (rule Make_dom(2))
  also have "\<dots> \<subseteq> dom (providers (container s))"
    using inv by simp
  also have "\<dots> = dom (providers (container (snd (Make key s))))"
    by (simp add: Make_dom(1))
  finally show ?thesis by (simp add: consistent_def)
qed

lemma consistent_apply_op: "consistent s \<Longrightarrow> consistent (apply_op x s)"
  by (cases x) (simp_all add: consistent_Bind consistent_Make snd_MustMake,
      simp add: consistent_def container_MakeNew)

lemma consistent_run: "consistent s \<Longrightarrow> consistent (run xs s)"
  by (induction xs arbitrary: s) (simp_all add: consistent_apply_op)

lemma unbound_apply_op:
  "\<not> binds key x \<Longrightarrow> providers (container (apply_op x s)) key = providers (container s) key"
proof (cases x)
  case (OpBind p)
  assume "\<not> binds key x"
  then show ?thesis using Bind_container [of p s] OpBind by auto
next
  case (OpMake k)
  then show ?thesis using Make_container [of k s] by simp
next
  case (OpMustMake k)
  then show ?thesis using Make_container [of k s] by (simp add: snd_MustMake)
next
  case (OpMakeNew k ps)
  then show ?thesis by (simp add: container_MakeNew)
next
  case (OpIsBind k)
  then show ?thesis by simp
qed

lemma unbound_run:
  "list_all (\<lambda>x. \<not> binds key x) xs \<Longrightarrow>
   providers (container (run xs s)) key = providers (container s) key"
  by (induction xs arbitrary: s) (simp_all add: unbound_apply_op)


lemma sublist_key: "sublist key (Error (ErrorsNew (''contract '' @ key @ '' have not register'')))"
  unfolding Error.simps by (rule sublist_appendI)

lemma newInstance_boot_fail:
  "callBoot sp s = (Some err, s1) \<Longrightarrow> newInstance sp ps s = (Inl err, s1)"
  by (simp add: newInstance_invoke)


lemma newInstance_success:
  "callBoot sp s = (None, s1) \<Longrightarrow> invoke sp ps s1 = (Inr i, s4) \<Longrightarrow>
   newInstance sp ps s = (Inr i, s4)"
  by (simp add: newInstance_invoke)


lemma newInstance_boot_first:
  "\<exists>rest. trace (snd (newInstance sp ps s)) = trace s @ CallBoot (Name sp) # rest
      \<and> boot_calls rest = 0 \<and> (fst (callBoot sp s) \<noteq> None \<longrightarrow> rest = [])"
  using newInstance_eq [of sp ps s "fst (newInstance sp ps s)" "snd (newInstance sp ps s)"]
  by auto

lemma snd_cacheOnSuccess [simp]: "trace (snd (cacheOnSuccess key r)) = trace (snd r)"
  by (simp add: cacheOnSuccess_def split: prod.splits sum.splits)

lemma Bind_eager_trace:
  "\<not> IsDefer p \<Longrightarrow> trace (snd (Bind p s)) = trace (snd (newInstance p None (setProvider (Name p) p s)))"
  by (simp add: Bind_eager split: prod.splits sum.splits)








lemma newInstance_boot_fail_trace:
  "callBoot sp s = (Some err, s1) \<Longrightarrow>
   trace (snd (newInstance sp ps s)) = trace s @ [CallBoot (Name sp)]"
  using callBoot_eq [of sp s "Some err" s1] by (simp add: newInstance_boot_fail)




section \<open>Claims\<close>







text \<open>
  C3, amended. For a key with a bound provider whose \<^verbatim>\<open>Boot\<close> succeeds,
  \<^verbatim>\<open>MakeNew(key, params)\<close> calls the factory with \<open>params\<close> itself whenever \<open>params\<close>
  is not nil, be it empty or not, and \<^verbatim>\<open>Params\<close> is not called; only for a nil
  \<open>params\<close> is \<^verbatim>\<open>Params\<close> called, after \<^verbatim>\<open>Boot\<close>, and its answer given to the
  factory. When \<^verbatim>\<open>Boot\<close> fails only \<^verbatim>\<open>Boot\<close> is called, and for a key with no
  bound provider no hook is called.
\<close>

theorem MakeNew_params:
  "(providers (container s) key = Some sp \<longrightarrow> callBoot sp s = (None, s1) \<longrightarrow>
      (\<forall>ps. trace (snd (MakeNew key (Some ps) s)) =
            trace s @ [CallBoot (Name sp), CallRegister (Name sp), CallFactory (Name sp) (Some ps)])
      \<and> trace (snd (MakeNew key None s)) =
            trace s @ [CallBoot (Name sp), CallParams (Name sp), CallRegister (Name sp),
                       CallFactory (Name sp) (fst (callParams sp s1))])
   \<and> (providers (container s) key = Some sp \<longrightarrow> callBoot sp s = (Some err, s1) \<longrightarrow>
      trace (snd (MakeNew key params s)) = trace s @ [CallBoot (Name sp)])
   \<and> (providers (container s) key = None \<longrightarrow> trace (snd (MakeNew key params s)) = trace s)"
proof (intro conjI impI)
  assume p: "providers (container s) key = Some sp" and b: "callBoot sp s = (None, s1)"
  have t1: "trace s1 = trace s @ [CallBoot (Name sp)]"
    using callBoot_eq [OF b] by simp
  have a: "trace (snd (newInstance sp (Some ps) s)) =
            trace s @ [CallBoot (Name sp), CallRegister (Name sp), CallFactory (Name sp) (Some ps)]" for ps
    using b t1
    by (auto simp: newInstance_def split: prod.splits sum.splits
        dest!: callRegister_eq callMethod_eq)
  then show "\<forall>ps. trace (snd (MakeNew key (Some ps) s)) =
            trace s @ [CallBoot (Name sp), CallRegister (Name sp), CallFactory (Name sp) (Some ps)]"
    using p by (simp add: MakeNew_bound)
  have "trace (snd (newInstance sp None s)) =
            trace s @ [CallBoot (Name sp), CallParams (Name sp), CallRegister (Name sp),
                       CallFactory (Name sp) (fst (callParams sp s1))]"
    using b t1
    by (auto simp: newInstance_def split: prod.splits sum.splits
        dest!: callParams_eq callRegister_eq callMethod_eq)
  then show "trace (snd (MakeNew key None s)) =
            trace s @ [CallBoot (Name sp), CallParams (Name sp), CallRegister (Name sp),
                       CallFactory (Name sp) (fst (callParams sp s1))]"
    using p by (simp add: MakeNew_bound)
next
  assume "providers (container s) key = Some sp" "callBoot sp s = (Some err, s1)"
  then show "trace (snd (MakeNew key params s)) = trace s @ [CallBoot (Name sp)]"
    by (simp add: MakeNew_bound newInstance_boot_fail_trace)
next
  assume "providers (container s) key = None"
  then show "trace (snd (MakeNew key params s)) = trace s"
    by (simp add: MakeNew_unbound)
qed

theorem MakeNew_params_witness:
  "providers (container ok) ''svc'' = Some (demo ''svc'' True None (Some [7]))
   \<and> fst (callBoot (demo ''svc'' True None (Some [7])) ok) = None
   \<and> trace (snd (MakeNew ''svc'' (Some [3, 4]) ok)) =
       [CallBoot ''svc'', CallRegister ''svc'', CallFactory ''svc'' (Some [3, 4])]
   \<and> trace (snd (MakeNew ''svc'' None ok)) =
       [CallBoot ''svc'', CallParams ''svc'', CallRegister ''svc'', CallFactory ''svc'' (Some [7])]
   \<and> providers (container ok) ''db'' = None
   \<and> trace (snd (MakeNew ''db'' None ok)) = []"
proof -
  have a: "providers (container ok) ''svc'' = Some (demo ''svc'' True None (Some [7]))"
    by (simp add: ok_def exec_defs)
  have g: "fst (callBoot (demo ''svc'' True None (Some [7])) ok) = None"
    by (simp add: ok_def exec_defs)
  then have b: "callBoot (demo ''svc'' True None (Some [7])) ok =
      (None, snd (callBoot (demo ''svc'' True None (Some [7])) ok))"
    by (metis prod.collapse)
  have c: "trace ok = []" by (simp add: ok_def exec_defs)
  have d: "fst (callParams (demo ''svc'' True None (Some [7]))
      (snd (callBoot (demo ''svc'' True None (Some [7])) ok))) = Some [7]"
    by (simp add: ok_def exec_defs)
  have e: "Name (demo ''svc'' True None (Some [7])) = ''svc''" by (simp add: demo_def)
  have u: "providers (container ok) ''db'' = None" by (simp add: ok_def exec_defs)
  note F = MakeNew_params [where s = ok and key = "''svc''"
      and sp = "demo ''svc'' True None (Some [7])", THEN conjunct1, rule_format, OF a b]
  note G = MakeNew_params [where s = ok and key = "''db''" and params = None,
      THEN conjunct2, THEN conjunct2, rule_format, OF u]
  from F c d e have x: "trace (snd (MakeNew ''svc'' (Some [3, 4]) ok)) =
       [CallBoot ''svc'', CallRegister ''svc'', CallFactory ''svc'' (Some [3, 4])]"
    and y: "trace (snd (MakeNew ''svc'' None ok)) =
       [CallBoot ''svc'', CallParams ''svc'', CallRegister ''svc'', CallFactory ''svc'' (Some [7])]"
    by simp_all
  from G c have z: "trace (snd (MakeNew ''db'' None ok)) = []" by simp
  from a g x y u z show ?thesis by blast
qed

text \<open>
  C3 as written fails. The provider of \<open>svc\<close> answers \<open>[7]\<close> to \<^verbatim>\<open>Params\<close>. Called
  with the empty slice that is not nil, \<^verbatim>\<open>MakeNew\<close> does not call \<^verbatim>\<open>Params\<close> and
  gives the factory the empty slice, not \<open>[7]\<close>.
\<close>

theorem MakeNew_empty_params:
  "fst (callParams (demo ''svc'' True None (Some [7])) ok) = Some [7]
   \<and> trace (snd (MakeNew ''svc'' (Some []) ok)) =
       [CallBoot ''svc'', CallRegister ''svc'', CallFactory ''svc'' (Some [])]"
  by (simp add: ok_def exec_defs)

text \<open>
  C4. For a key with no bound provider, \<^verbatim>\<open>Make(key)\<close> returns the error
  \<open>contract <key> have not register\<close>, whose message contains the key, and changes
  nothing; \<^verbatim>\<open>MustMake(key)\<close> panics.
\<close>

theorem Make_unregistered:
  assumes "providers (container s) key = None"
  shows "Make key s = (Inl (ErrorsNew (''contract '' @ key @ '' have not register'')), s)
    \<and> sublist key (Error (ErrorsNew (''contract '' @ key @ '' have not register'')))
    \<and> MustMake key s = (Panic (''container not contain key '' @ key), s)"
  using assms sublist_key [of key]
  by (simp add: Make_unbound MustMake_Make)

theorem Make_unregistered_witness:
  "providers (container ok) ''db'' = None
   \<and> Make ''db'' ok = (Inl (ErrorsNew ''contract db have not register''), ok)
   \<and> MustMake ''db'' ok = (Panic ''container not contain key db'', ok)"
proof -
  have h: "providers (container ok) ''db'' = None"
    by (simp add: ok_def exec_defs)
  show ?thesis using h Make_unregistered [OF h] by simp
qed




text \<open>
  C6. In a container on which no \<^verbatim>\<open>Bind\<close> of a provider named \<open>key\<close> has been
  called, whatever else has been called, \<^verbatim>\<open>IsBind(key)\<close> is false. After
  \<^verbatim>\<open>Bind(p)\<close>, \<^verbatim>\<open>IsBind\<close> of the name of \<open>p\<close> is true, whether \<open>p\<close> is deferred
  or not and whatever \<^verbatim>\<open>Bind\<close> returned: for a provider that is not deferred the
  pipeline runs on the state in which the provider is already installed.
\<close>

theorem IsBind_after_Bind:
  "(list_all (\<lambda>x. \<not> binds key x) xs \<longrightarrow> \<not> IsBind key (run xs (start w :: ('a, 'b) sys)))
   \<and> IsBind (Name p) (snd (Bind p s))
   \<and> (\<not> IsDefer p \<longrightarrow>
        Bind p s = (case newInstance p None (setProvider (Name p) p s) of
                      (Inl err, t) \<Rightarrow> (Some err, t)
                    | (Inr inst, t) \<Rightarrow> (None, setInstance (Name p) inst t))
        \<and> IsBind (Name p) (setProvider (Name p) p s))"
proof -
  have "providers (container (start w :: ('a, 'b) sys)) key = None"
    by (simp add: start_def NewStartContainer_def)
  then have a: "list_all (\<lambda>x. \<not> binds key x) xs \<Longrightarrow> \<not> IsBind key (run xs (start w))"
    by (simp add: unbound_run IsBind_def findServiceProvider_def)
  have b: "IsBind (Name p) (snd (Bind p s))"
    using Bind_container [of p s] by (simp add: IsBind_def findServiceProvider_def)
  have c: "IsBind (Name p) (setProvider (Name p) p s)"
    by (simp add: IsBind_def findServiceProvider_def)
  show ?thesis using a b c by (simp add: Bind_eager)
qed

theorem IsBind_after_Bind_witness:
  "\<not> IsBind ''svc'' (run [OpMake ''svc'', OpBind (demo ''db'' False None None)] (start 0))
   \<and> fst (Bind (demo ''svc'' False (Some (ProviderError 2 ''no route'')) None) (start 0))
        = Some (ProviderError 2 ''no route'')
   \<and> IsBind ''svc'' (snd (Bind (demo ''svc'' False (Some (ProviderError 2 ''no route'')) None) (start 0)))"
proof -
  have h: "list_all (\<lambda>x. \<not> binds ''svc'' x) [OpMake ''svc'', OpBind (demo ''db'' False None None)]"
    by (simp add: demo_def)
  have n: "Name (demo ''svc'' False (Some (ProviderError 2 ''no route'')) None) = ''svc''"
    by (simp add: demo_def)
  have e: "fst (Bind (demo ''svc'' False (Some (ProviderError 2 ''no route'')) None) (start 0))
        = Some (ProviderError 2 ''no route'')"
    by (simp add: exec_defs)
  show ?thesis
    using h n e
      IsBind_after_Bind [of "''svc''" "[OpMake ''svc'', OpBind (demo ''db'' False None None)]" 0
        "demo ''svc'' False (Some (ProviderError 2 ''no route'')) None" "start 0"]
    by simp
qed




text \<open>
  C8. Every run of the pipeline, from \<^verbatim>\<open>Bind\<close> of a provider that is not deferred, from
  \<^verbatim>\<open>MakeNew\<close> of a bound key, and from \<^verbatim>\<open>Make\<close> of a bound key with no cached
  instance, adds to the trace the call of \<^verbatim>\<open>Boot\<close> of that provider first, then calls
  among which there is no \<^verbatim>\<open>Boot\<close>; when \<^verbatim>\<open>Boot\<close> fails nothing follows it, so
  neither \<^verbatim>\<open>Params\<close> nor the factory has run.
\<close>

theorem Boot_first:
  "(\<not> IsDefer p \<longrightarrow>
      (\<exists>rest. trace (snd (Bind p s)) = trace s @ CallBoot (Name p) # rest
         \<and> boot_calls rest = 0
         \<and> (fst (callBoot p (setProvider (Name p) p s)) \<noteq> None \<longrightarrow> rest = [])))
   \<and> (providers (container s) key = Some sp \<longrightarrow>
      (\<exists>rest. trace (snd (MakeNew key ps s)) = trace s @ CallBoot (Name sp) # rest
         \<and> boot_calls rest = 0
         \<and> (fst (callBoot sp s) \<noteq> None \<longrightarrow> rest = [])))
   \<and> (providers (container s) key = Some sp \<longrightarrow> instances (container s) key = None \<longrightarrow>
      (\<exists>rest. trace (snd (Make key s)) = trace s @ CallBoot (Name sp) # rest
         \<and> boot_calls rest = 0
         \<and> (fst (callBoot sp s) \<noteq> None \<longrightarrow> rest = [])))"
proof (intro conjI impI)
  assume "\<not> IsDefer p"
  then show "\<exists>rest. trace (snd (Bind p s)) = trace s @ CallBoot (Name p) # rest
         \<and> boot_calls rest = 0
         \<and> (fst (callBoot p (setProvider (Name p) p s)) \<noteq> None \<longrightarrow> rest = [])"
    using newInstance_boot_first [of p None "setProvider (Name p) p s"]
    by (simp add: Bind_eager_trace)
next
  assume "providers (container s) key = Some sp"
  then show "\<exists>rest. trace (snd (MakeNew key ps s)) = trace s @ CallBoot (Name sp) # rest
         \<and> boot_calls rest = 0 \<and> (fst (callBoot sp s) \<noteq> None \<longrightarrow> rest = [])"
    using newInstance_boot_first [of sp ps s] by (simp add: MakeNew_bound)
next
  assume "providers (container s) key = Some sp" "instances (container s) key = None"
  then show "\<exists>rest. trace (snd (Make key s)) = trace s @ CallBoot (Name sp) # rest
         \<and> boot_calls rest = 0 \<and> (fst (callBoot sp s) \<noteq> None \<longrightarrow> rest = [])"
    using newInstance_boot_first [of sp None s] by (simp add: Make_fresh)
qed

theorem Boot_first_witness:
  "\<not> IsDefer unreachable
   \<and> fst (callBoot unreachable (setProvider (Name unreachable) unreachable (start 0))) \<noteq> None
   \<and> trace (snd (Bind unreachable (start 0))) = [CallBoot ''svc'']
   \<and> providers (container ok) ''svc'' = Some (demo ''svc'' True None (Some [7]))
   \<and> instances (container ok) ''svc'' = None
   \<and> (\<exists>rest. trace (snd (Make ''svc'' ok)) = CallBoot ''svc'' # rest \<and> boot_calls rest = 0)"
proof -
  have a: "\<not> IsDefer unreachable" by (simp add: unreachable_def demo_def)
  have b: "fst (callBoot unreachable (setProvider (Name unreachable) unreachable (start 0))) \<noteq> None"
    by (simp add: unreachable_def exec_defs)
  have n: "Name unreachable = ''svc''" "trace (start 0 :: (nat, nat) sys) = []"
    by (simp_all add: unreachable_def exec_defs)
  have c: "providers (container ok) ''svc'' = Some (demo ''svc'' True None (Some [7]))"
    by (simp add: ok_def exec_defs)
  have d: "instances (container ok) ''svc'' = None"
    by (simp add: ok_def exec_defs)
  have m: "Name (demo ''svc'' True None (Some [7])) = ''svc''" "trace ok = []"
    by (simp_all add: ok_def exec_defs)
  note F = Boot_first [where p = unreachable and s = "start 0"]
  note G = Boot_first [where s = ok and key = "''svc''" and sp = "demo ''svc'' True None (Some [7])"]
  from F [THEN conjunct1, rule_format, OF a] b n
  have e: "trace (snd (Bind unreachable (start 0))) = [CallBoot ''svc'']" by auto
  from G [THEN conjunct2, THEN conjunct2, rule_format, OF c d] m
  have f: "\<exists>rest. trace (snd (Make ''svc'' ok)) = CallBoot ''svc'' # rest \<and> boot_calls rest = 0"
    by auto
  from a b c d e f show ?thesis by blast
qed



text \<open>
  C10. In every state reached from a new container by any sequence of \<^verbatim>\<open>Bind\<close>,
  \<^verbatim>\<open>Make\<close>, \<^verbatim>\<open>MustMake\<close>, \<^verbatim>\<open>MakeNew\<close> and \<^verbatim>\<open>IsBind\<close>, every key of the
  map of instances is a key of the map of providers.
\<close>

theorem instances_have_providers:
  "dom (instances (container (run xs (start w :: ('a, 'b) sys))))
     \<subseteq> dom (providers (container (run xs (start w))))"
proof -
  have "consistent (start w :: ('a, 'b) sys)"
    by (simp add: consistent_def start_def NewStartContainer_def)
  then have "consistent (run xs (start w))" by (rule consistent_run)
  then show ?thesis by (simp add: consistent_def)
qed

theorem instances_have_providers_witness:
  "instances (container (run [OpBind (demo ''svc'' False None (Some [7])), OpMakeNew ''svc'' None,
       OpBind (demo ''db'' True None None), OpMustMake ''db'', OpMake ''web''] (start 0))) ''db''
     = Some 102
   \<and> dom (instances (container (run [OpBind (demo ''svc'' False None (Some [7])), OpMakeNew ''svc'' None,
       OpBind (demo ''db'' True None None), OpMustMake ''db'', OpMake ''web''] (start 0))))
     \<subseteq> dom (providers (container (run [OpBind (demo ''svc'' False None (Some [7])),
       OpMakeNew ''svc'' None, OpBind (demo ''db'' True None None), OpMustMake ''db'',
       OpMake ''web''] (start 0))))"
proof -
  have a: "instances (container (run [OpBind (demo ''svc'' False None (Some [7])), OpMakeNew ''svc'' None,
       OpBind (demo ''db'' True None None), OpMustMake ''db'', OpMake ''web''] (start 0))) ''db''
     = Some 102"
    by (simp add: exec_defs)
  show ?thesis
    using a instances_have_providers [of "[OpBind (demo ''svc'' False None (Some [7])),
       OpMakeNew ''svc'' None, OpBind (demo ''db'' True None None), OpMustMake ''db'',
       OpMake ''web'']" "0::nat"]
    by blast
qed

end
